theory Spec2Isabelle
  imports Complex_Main
begin

section \<open>JavaScript values\<close>

text \<open>
  The values that occur in a record's metadata. A finite number is a rational (the
  rounding of IEEE doubles is not modelled); the two non-finite results that a division of
  non-negative numbers can give, \<open>Infinity\<close> and \<open>NaN\<close>, are values of their own.
  \<open>ObjectUrl n\<close> is the string that \<open>URL.createObjectURL\<close> returned for its \<open>n\<close>-th call.
\<close>

datatype jsval = Undefined | Num rat | Infinity | NaN | Str string | ObjectUrl nat

fun truthy :: "jsval \<Rightarrow> bool" where
  "truthy Undefined = False"
| "truthy (Num q) = (q \<noteq> 0)"
| "truthy Infinity = True"
| "truthy NaN = False"
| "truthy (Str s) = (s \<noteq> [])"
| "truthy (ObjectUrl n) = True"

text \<open>\<open>a / b\<close> for two non-negative integers, as JavaScript divides them.\<close>

definition js_div :: "nat \<Rightarrow> nat \<Rightarrow> jsval" where
  "js_div a b =
     (if b = 0 then (if a = 0 then NaN else Infinity) else Num (of_nat a / of_nat b))"

text \<open>\<open>a || b\<close>.\<close>

definition js_or :: "jsval \<Rightarrow> jsval \<Rightarrow> jsval" where
  "js_or a b = (if truthy a then a else b)"


text \<open>\<open>a === b\<close>.\<close>

definition strict_eq :: "jsval \<Rightarrow> jsval \<Rightarrow> bool" where
  "strict_eq a b = (a = b \<and> a \<noteq> NaN)"

definition startsWith :: "string \<Rightarrow> string \<Rightarrow> bool" where
  "startsWith s pre = (take (length pre) s = pre)"

section \<open>Data model\<close>

type_synonym meta = "string \<rightharpoonup> jsval"

record rawfile =
  file_name :: string
  file_size :: nat
  file_type :: string
  lastModified :: nat

datatype kind = Image | Audio | Video

text \<open>
  Where the asynchronous \<open>handleFile\<close> of a retained record stands:
  \<^item> \<open>AwaitMedia k u\<close>: \<open>generatePreview\<close> is suspended in \<open>fileCallbackToPromise\<close>, waiting
    for the \<open>onload\<close> (image) or \<open>onloadedmetadata\<close> (audio, video) callback, and holds
    the object URL \<open>u\<close>;
  \<^item> \<open>AwaitPreview\<close>: the promise of \<open>generatePreview\<close> is resolved and the rest of
    \<open>handleFile\<close> is queued;
  \<^item> \<open>Closure t\<close>: the closure \<open>triggerUpload\<close> exists, \<open>t\<close> is its variable \<open>triggered\<close>;
  \<^item> \<open>Stopped\<close>: \<open>handleFile\<close> has returned before building the closure, or has thrown.
\<close>

datatype stage = AwaitMedia kind nat | AwaitPreview | Closure bool | Stopped

text \<open>
  The object \<open>{ file, meta }\<close>, with the two properties that are attached later:
  \<open>xhr\<close> (the handle of an \<open>XMLHttpRequest\<close>) and \<open>triggerUpload\<close> (whether the closure
  has been attached to the object).
\<close>

record fileWithMeta =
  file_of :: rawfile
  meta :: meta
  xhr :: "nat option"
  triggerUpload_attr :: bool
  pipeline :: stage

text \<open>What \<open>getUploadParams\<close> resolves to: \<open>{ fields, headers, meta, method, url }\<close>.\<close>

record upload_params =
  up_fields :: "(string \<times> string) list"
  up_headers :: "(string \<times> string) list"
  up_meta :: meta
  up_method :: "string option"
  up_url :: "string option"

datatype part = Field string | FilePart rawfile

record xhr_obj =
  owner :: nat
  req_method :: string
  req_url :: string
  req_headers :: "(string \<times> string) list"
  form :: "(string \<times> part) list"
  aborted :: bool

text \<open>
  \<open>this.props\<close>, as far as the lifecycle reads it. A collaborator is a function of the
  record it is given: \<open>onChangeStatus\<close> returns the \<open>meta\<close> of its result, if any,
  \<open>onUploadReady\<close> returns whether its result has \<open>delayUpload === true\<close>, and
  \<open>getUploadParams\<close> returns what its promise resolves to (\<open>None\<close> for a nullish value).
  A collaborator does not write to the record it is given and does not call back into
  the component. The hooks \<open>onCancel\<close>, \<open>onRemove\<close> and \<open>onRestart\<close> return nothing
  that is read, and \<open>forceUpdate\<close> changes nothing of the state below; they are left
  out. The sizes and \<open>maxFiles\<close> are natural numbers.
\<close>

record props =
  accept :: string
  minSizeBytes :: nat
  maxSizeBytes :: nat
  maxFiles :: nat
  previewTypes :: "string list option"
  getUploadParams :: "(fileWithMeta \<Rightarrow> upload_params option) option"
  onChangeStatus :: "(fileWithMeta \<Rightarrow> jsval \<Rightarrow> meta option) option"
  onUploadReady :: "(fileWithMeta \<Rightarrow> bool) option"

text \<open>
  What the module imports and the platform provides: the predicate \<open>accepts\<close> of
  \<open>./utils\<close> (not part of this file, taken as a parameter) and \<open>Date.toISOString\<close>.
\<close>

record env =
  accepts :: "rawfile \<Rightarrow> string \<Rightarrow> bool"
  toISOString :: "nat \<Rightarrow> string"

datatype error = TypeError

text \<open>
  The state: the module-level counter \<open>id\<close>, the array \<open>this._files\<close> (references into
  \<open>objs\<close>), the retained \<open>fileWithMeta\<close> objects, the calls of \<open>uploadFile\<close> that are
  suspended at \<open>await getUploadParams(...)\<close> with the value they will resume with, the
  \<open>XMLHttpRequest\<close> objects, the object URLs (\<open>True\<close> while not revoked), the records
  that \<open>onChangeStatus\<close> was called with, and the errors that rejected a promise nobody
  awaits.
\<close>

record dropzone =
  id_counter :: nat
  files :: "nat list"
  objs :: "fileWithMeta list"
  uploads :: "(nat \<times> upload_params option) list"
  xhrs :: "xhr_obj list"
  urls :: "bool list"
  notified :: "fileWithMeta list"
  unhandled :: "error list"

definition init :: dropzone where
  "init = \<lparr>id_counter = 0, files = [], objs = [], uploads = [], xhrs = [], urls = [],
           notified = [], unhandled = []\<rparr>"

section \<open>Accessors\<close>

definition get :: "string \<Rightarrow> fileWithMeta \<Rightarrow> jsval" where
  "get k f = (case meta f k of None \<Rightarrow> Undefined | Some v \<Rightarrow> v)"

definition set_meta :: "string \<Rightarrow> jsval \<Rightarrow> fileWithMeta \<Rightarrow> fileWithMeta" where
  "set_meta k v f = f\<lparr>meta := (meta f)(k \<mapsto> v)\<rparr>"

definition upd :: "nat \<Rightarrow> (fileWithMeta \<Rightarrow> fileWithMeta) \<Rightarrow> dropzone \<Rightarrow> dropzone" where
  "upd r g s = s\<lparr>objs := (objs s)[r := g (objs s ! r)]\<rparr>"

definition set_stage :: "nat \<Rightarrow> stage \<Rightarrow> dropzone \<Rightarrow> dropzone" where
  "set_stage r st s = upd r (\<lambda>f. f\<lparr>pipeline := st\<rparr>) s"

definition revokeObjectURL :: "nat \<Rightarrow> dropzone \<Rightarrow> dropzone" where
  "revokeObjectURL u s = s\<lparr>urls := (urls s)[u := False]\<rparr>"

definition abort :: "nat \<Rightarrow> dropzone \<Rightarrow> dropzone" where
  "abort x s = s\<lparr>xhrs := (xhrs s)[x := (xhrs s ! x)\<lparr>aborted := True\<rparr>]\<rparr>"

section \<open>The operations of \<open>Dropzone\<close>\<close>

subsection \<open>\<open>handleChangeStatus\<close>\<close>

text \<open>
  On the record alone: the hook's \<open>meta\<close>, without its \<open>status\<close>, is spread over the
  record's \<open>meta\<close>.
\<close>

definition handleChangeStatus :: "props \<Rightarrow> fileWithMeta \<Rightarrow> fileWithMeta" where
  "handleChangeStatus p f =
     (case onChangeStatus p of
        None \<Rightarrow> f
      | Some hook \<Rightarrow>
          (case hook f (get ''status'' f) of
             None \<Rightarrow> f
           | Some m \<Rightarrow> f\<lparr>meta := meta f ++ m(''status'' := None)\<rparr>))"

definition log_call :: "props \<Rightarrow> fileWithMeta \<Rightarrow> dropzone \<Rightarrow> dropzone" where
  "log_call p f s =
     (case onChangeStatus p of
        None \<Rightarrow> s
      | Some hook \<Rightarrow> s\<lparr>notified := notified s @ [f]\<rparr>)"

text \<open>\<open>this.handleChangeStatus(fileWithMeta)\<close> for the retained object \<open>r\<close>.\<close>

definition changeStatus :: "props \<Rightarrow> nat \<Rightarrow> dropzone \<Rightarrow> dropzone" where
  "changeStatus p r s = upd r (handleChangeStatus p) (log_call p (objs s ! r) s)"

subsection \<open>\<open>uploadFile\<close>\<close>

text \<open>
  Up to its \<open>await\<close>: the provider is called. Calling an absent provider throws inside
  the asynchronous function, whose promise is rejected and awaited by nobody.
\<close>

definition uploadFile :: "props \<Rightarrow> nat \<Rightarrow> dropzone \<Rightarrow> dropzone" where
  "uploadFile p r s =
     (case getUploadParams p of
        None \<Rightarrow> s\<lparr>unhandled := unhandled s @ [TypeError]\<rparr>
      | Some provider \<Rightarrow> s\<lparr>uploads := uploads s @ [(r, provider (objs s ! r))]\<rparr>)"

definition no_params :: upload_params where
  "no_params = \<lparr>up_fields = [], up_headers = [], up_meta = Map.empty, up_method = None,
                up_url = None\<rparr>"

text \<open>After the \<open>await\<close>, with the value \<open>params\<close> of the provider.\<close>

definition uploadFile_resume ::
  "props \<Rightarrow> nat \<Rightarrow> upload_params option \<Rightarrow> dropzone \<Rightarrow> dropzone" where
  "uploadFile_resume p r params s =
     (let q = (case params of None \<Rightarrow> no_params | Some q \<Rightarrow> q);
          extraMeta = (up_meta q)(''status'' := None)
      in if up_url q = None \<or> up_url q = Some [] then
           changeStatus p r (upd r (set_meta ''status'' (Str ''error_upload_params'')) s)
         else
           let x = length (xhrs s);
               request = \<lparr>owner = r,
                          req_method = (case up_method q of None \<Rightarrow> ''POST'' | Some m \<Rightarrow> m),
                          req_url = the (up_url q),
                          req_headers = (''X-Requested-With'', ''XMLHttpRequest'') # up_headers q,
                          form = map (\<lambda>(k, v). (k, Field v)) (up_fields q)
                                 @ [(''file'', FilePart (file_of (objs s ! r)))],
                          aborted = False\<rparr>
           in upd r (\<lambda>f. f\<lparr>meta := meta f ++ extraMeta, xhr := Some x\<rparr>)
                (s\<lparr>xhrs := xhrs s @ [request]\<rparr>))"

subsection \<open>The listeners of a request\<close>

definition percent_of :: "nat \<Rightarrow> nat \<Rightarrow> jsval" where
  "percent_of e_loaded e_total = js_or (js_div (e_loaded * 100) e_total) (Num 100)"

definition on_progress :: "nat \<Rightarrow> nat \<Rightarrow> nat \<Rightarrow> dropzone \<Rightarrow> dropzone" where
  "on_progress x e_loaded e_total s =
     upd (owner (xhrs s ! x)) (set_meta ''percent'' (percent_of e_loaded e_total)) s"

definition on_readystatechange :: "props \<Rightarrow> nat \<Rightarrow> nat \<Rightarrow> nat \<Rightarrow> dropzone \<Rightarrow> dropzone" where
  "on_readystatechange p x readyState xstatus s =
     (let r = owner (xhrs s ! x) in
      if readyState \<noteq> 2 \<and> readyState \<noteq> 4 then s
      else if xstatus = 0 then
        changeStatus p r (upd r (set_meta ''status'' (Str ''aborted'')) s)
      else if xstatus < 400 then
        changeStatus p r
          (upd r (\<lambda>f. (if readyState = 4 then set_meta ''status'' (Str ''done'') else id)
                        ((if readyState = 2 then set_meta ''status'' (Str ''headers_received'')
                          else id)
                          (set_meta ''percent'' (Num 100) f))) s)
      else
        changeStatus p r (upd r (set_meta ''status'' (Str ''error_upload'')) s))"

subsection \<open>\<open>generatePreview\<close>\<close>

record media =
  img_width :: nat
  img_height :: nat
  duration :: rat
  videoWidth :: nat
  videoHeight :: nat

text \<open>
  Up to its first \<open>await\<close>, or to its end when it awaits nothing. \<open>type.startsWith\<close> of
  a \<open>type\<close> that is not a string throws outside the \<open>try\<close>; \<open>previewTypes.includes\<close> of
  an absent \<open>previewTypes\<close> throws inside it, and the \<open>catch\<close> revokes the URL.
\<close>

definition generatePreview :: "props \<Rightarrow> nat \<Rightarrow> dropzone \<Rightarrow> dropzone" where
  "generatePreview p r s =
     (case meta (objs s ! r) ''type'' of
        Some (Str ty) \<Rightarrow>
          (let isImage = startsWith ty ''image/'';
               isAudio = startsWith ty ''audio/'';
               isVideo = startsWith ty ''video/''
           in if \<not> isImage \<and> \<not> isAudio \<and> \<not> isVideo then set_stage r AwaitPreview s
              else
                let objectUrl = length (urls s);
                    s1 = s\<lparr>urls := urls s @ [True]\<rparr>
                in (case previewTypes p of
                      None \<Rightarrow> set_stage r AwaitPreview (revokeObjectURL objectUrl s1)
                    | Some pts \<Rightarrow>
                        if isImage \<and> ''image'' \<in> set pts then
                          upd r (\<lambda>f. (set_meta ''previewUrl'' (ObjectUrl objectUrl) f)
                                        \<lparr>pipeline := AwaitMedia Image objectUrl\<rparr>) s1
                        else if isAudio \<and> ''audio'' \<in> set pts then
                          set_stage r (AwaitMedia Audio objectUrl) s1
                        else if isVideo \<and> ''video'' \<in> set pts then
                          set_stage r (AwaitMedia Video objectUrl) s1
                        else set_stage r AwaitPreview (revokeObjectURL objectUrl s1)))
      | _ \<Rightarrow> set_stage r Stopped (s\<lparr>unhandled := unhandled s @ [TypeError]\<rparr>))"

text \<open>
  The awaited callback of the record's media element fires: the rest of the \<open>try\<close>
  block. The three prefixes exclude each other, so the blocks after the one that awaited
  are skipped.
\<close>

definition generatePreview_resume :: "nat \<Rightarrow> media \<Rightarrow> dropzone \<Rightarrow> dropzone" where
  "generatePreview_resume r m s =
     (case pipeline (objs s ! r) of
        AwaitMedia k objectUrl \<Rightarrow>
          (let fill = (case k of
                  Image \<Rightarrow> (\<lambda>f. set_meta ''height'' (Num (of_nat (img_height m)))
                                 (set_meta ''width'' (Num (of_nat (img_width m))) f))
                | Audio \<Rightarrow> set_meta ''duration'' (Num (duration m))
                | Video \<Rightarrow> (\<lambda>f. set_meta ''videoHeight'' (Num (of_nat (videoHeight m)))
                                 (set_meta ''videoWidth'' (Num (of_nat (videoWidth m)))
                                   (set_meta ''duration'' (Num (duration m)) f))))
           in set_stage r AwaitPreview (revokeObjectURL objectUrl (upd r fill s)))
      | _ \<Rightarrow> s)"

subsection \<open>\<open>handleFile\<close> and its closure \<open>triggerUpload\<close>\<close>

definition triggerUpload :: "props \<Rightarrow> nat \<Rightarrow> dropzone \<Rightarrow> dropzone" where
  "triggerUpload p r s =
     (case pipeline (objs s ! r) of
        Closure triggered \<Rightarrow>
          if triggered then s
          else
            let s1 = set_stage r (Closure True) s;
                s2 = (case getUploadParams p of
                        Some provider \<Rightarrow>
                          upd r (set_meta ''status'' (Str ''uploading'')) (uploadFile p r s1)
                      | None \<Rightarrow> upd r (set_meta ''status'' (Str ''done'')) s1)
            in changeStatus p r s2
      | _ \<Rightarrow> s)"

definition new_fileWithMeta :: "env \<Rightarrow> string \<Rightarrow> nat \<Rightarrow> rawfile \<Rightarrow> fileWithMeta" where
  "new_fileWithMeta e now i f =
     \<lparr>file_of = f,
      meta = [''name'' \<mapsto> Str (file_name f),
              ''size'' \<mapsto> Num (of_nat (file_size f)),
              ''type'' \<mapsto> Str (file_type f),
              ''lastModifiedDate'' \<mapsto>
                 (if lastModified f = 0 then Num 0 else Str (toISOString e (lastModified f))),
              ''uploadedDate'' \<mapsto> Str now,
              ''percent'' \<mapsto> Num 0,
              ''id'' \<mapsto> Num (of_nat i)],
      xhr = None, triggerUpload_attr = False, pipeline = Stopped\<rparr>"

text \<open>
  \<open>handleFile\<close> up to its \<open>await\<close>; \<open>now\<close> is \<open>new Date().toISOString()\<close>. A rejected
  record is handed to the hook and dropped.
\<close>

definition handleFile :: "props \<Rightarrow> env \<Rightarrow> rawfile \<Rightarrow> string \<Rightarrow> dropzone \<Rightarrow> dropzone" where
  "handleFile p e f now s =
     (let fileWithMeta = new_fileWithMeta e now (id_counter s) f in
      if file_type f \<noteq> ''application/x-moz-file'' \<and> \<not> accepts e f (accept p) then
        log_call p (set_meta ''status'' (Str ''rejected_file_type'') fileWithMeta) s
      else if length (files s) \<ge> maxFiles p then
        log_call p (set_meta ''status'' (Str ''rejected_max_files'') fileWithMeta) s
      else
        let r = length (objs s);
            s1 = s\<lparr>objs := objs s @ [set_meta ''status'' (Str ''preparing'') fileWithMeta],
                   files := files s @ [r]\<rparr>;
            s2 = changeStatus p r s1;
            s3 = s2\<lparr>id_counter := id_counter s2 + 1\<rparr>
        in if file_size f < minSizeBytes p \<or> file_size f > maxSizeBytes p then
             changeStatus p r (upd r (set_meta ''status'' (Str ''error_file_size'')) s3)
           else generatePreview p r s3)"

text \<open>After \<open>await this.generatePreview(fileWithMeta)\<close>.\<close>

definition handleFile_resume :: "props \<Rightarrow> nat \<Rightarrow> dropzone \<Rightarrow> dropzone" where
  "handleFile_resume p r s =
     (case pipeline (objs s ! r) of
        AwaitPreview \<Rightarrow>
          (let s1 = set_stage r (Closure False) s in
           case onUploadReady p of
             None \<Rightarrow> triggerUpload p r s1
           | Some ready \<Rightarrow>
               let s2 = upd r (\<lambda>f. f\<lparr>triggerUpload_attr := True\<rparr>) s1
               in if ready (objs s2 ! r) then s2 else triggerUpload p r s2)
      | _ \<Rightarrow> s)"

subsection \<open>Cancel, remove, restart, unmount\<close>

definition handleCancel :: "nat \<Rightarrow> dropzone \<Rightarrow> dropzone" where
  "handleCancel r s = (case xhr (objs s ! r) of None \<Rightarrow> s | Some x \<Rightarrow> abort x s)"

fun findIndex :: "('a \<Rightarrow> bool) \<Rightarrow> 'a list \<Rightarrow> nat option" where
  "findIndex P [] = None"
| "findIndex P (x # xs) = (if P x then Some 0 else map_option Suc (findIndex P xs))"

definition handleRemove :: "nat \<Rightarrow> dropzone \<Rightarrow> dropzone" where
  "handleRemove r s =
     (case findIndex (\<lambda>q. strict_eq (get ''id'' (objs s ! q)) (get ''id'' (objs s ! r)))
             (files s) of
        None \<Rightarrow> s
      | Some i \<Rightarrow> s\<lparr>files := take i (files s) @ drop (Suc i) (files s)\<rparr>)"

definition handleRestart :: "props \<Rightarrow> nat \<Rightarrow> dropzone \<Rightarrow> dropzone" where
  "handleRestart p r s =
     changeStatus p r (upd r (set_meta ''status'' (Str ''uploading'')) (uploadFile p r s))"

text \<open>
  \<open>componentWillUnmount\<close>: the loop over \<open>this._files\<close>. \<open>file.xhr.abort()\<close> of a record
  without \<open>xhr\<close> throws, and the loop ends there.
\<close>

fun unmount_loop :: "nat list \<Rightarrow> dropzone \<Rightarrow> error + dropzone" where
  "unmount_loop [] s = Inr s"
| "unmount_loop (r # rs) s =
     (if get ''status'' (objs s ! r) = Str ''uploading'' then
        (case xhr (objs s ! r) of
           None \<Rightarrow> Inl TypeError
         | Some x \<Rightarrow> unmount_loop rs (abort x s))
      else unmount_loop rs s)"

definition componentWillUnmount :: "dropzone \<Rightarrow> error + dropzone" where
  "componentWillUnmount s = unmount_loop (files s) s"

section \<open>Events\<close>

text \<open>
  One event is one job of the event loop: a call of \<open>handleFile\<close> (up to its \<open>await\<close>),
  a callback of a media element, the continuation of \<open>handleFile\<close>, a call of the
  attached closure from outside, the continuation of the \<open>n\<close>-th suspended \<open>uploadFile\<close>,
  a listener of a request, or one of the three operations of the presentation layer.
  \<open>MediaError\<close> is the \<open>onerror\<close> callback, for which nothing is registered. An event for
  an object or a request that does not exist cannot occur and changes nothing.
\<close>

datatype event =
    HandleFile rawfile string
  | MediaLoaded nat media
  | MediaError nat
  | PreviewAwaited nat
  | TriggerUpload nat
  | ParamsResolved nat
  | Progress nat nat nat
  | ReadyStateChange nat nat nat
  | Cancel nat
  | Remove nat
  | Restart nat

fun step :: "props \<Rightarrow> env \<Rightarrow> event \<Rightarrow> dropzone \<Rightarrow> dropzone" where
  "step p e (HandleFile f now) s = handleFile p e f now s"
| "step p e (MediaLoaded r m) s =
     (if r < length (objs s) then generatePreview_resume r m s else s)"
| "step p e (MediaError r) s = s"
| "step p e (PreviewAwaited r) s =
     (if r < length (objs s) then handleFile_resume p r s else s)"
| "step p e (TriggerUpload r) s =
     (if r < length (objs s) \<and> triggerUpload_attr (objs s ! r) then triggerUpload p r s
      else s)"
| "step p e (ParamsResolved n) s =
     (if n < length (uploads s) then
        uploadFile_resume p (fst (uploads s ! n)) (snd (uploads s ! n))
          (s\<lparr>uploads := take n (uploads s) @ drop (Suc n) (uploads s)\<rparr>)
      else s)"
| "step p e (Progress x e_loaded e_total) s =
     (if x < length (xhrs s) then on_progress x e_loaded e_total s else s)"
| "step p e (ReadyStateChange x readyState xstatus) s =
     (if x < length (xhrs s) then on_readystatechange p x readyState xstatus s else s)"
| "step p e (Cancel r) s = (if r < length (objs s) then handleCancel r s else s)"
| "step p e (Remove r) s = (if r < length (objs s) then handleRemove r s else s)"
| "step p e (Restart r) s = (if r < length (objs s) then handleRestart p r s else s)"

fun run :: "props \<Rightarrow> env \<Rightarrow> event list \<Rightarrow> dropzone \<Rightarrow> dropzone" where
  "run p e [] s = s"
| "run p e (ev # evs) s = run p e evs (step p e ev s)"

section \<open>Properties stated below, as functions\<close>

text \<open>
  No replacement metadata of the status-change hook has the key \<open>k\<close>, and no extra
  metadata of the provider has it.
\<close>

definition hook_keeps :: "string \<Rightarrow> props \<Rightarrow> bool" where
  "hook_keeps k p =
     (\<forall>hook f v m. onChangeStatus p = Some hook \<longrightarrow> hook f v = Some m \<longrightarrow> m k = None)"

definition provider_keeps :: "string \<Rightarrow> props \<Rightarrow> bool" where
  "provider_keeps k p =
     (\<forall>provider f q. getUploadParams p = Some provider \<longrightarrow> provider f = Some q \<longrightarrow>
        up_meta q k = None)"



text \<open>The event is a call of \<open>handleFile\<close> that passes the type and the capacity check.\<close>

fun retains :: "props \<Rightarrow> env \<Rightarrow> dropzone \<Rightarrow> event \<Rightarrow> bool" where
  "retains p e s (HandleFile f now) =
     ((file_type f = ''application/x-moz-file'' \<or> accepts e f (accept p))
      \<and> length (files s) < maxFiles p)"
| "retains p e s ev = False"

fun none_retained :: "props \<Rightarrow> env \<Rightarrow> event list \<Rightarrow> dropzone \<Rightarrow> bool" where
  "none_retained p e [] s = True"
| "none_retained p e (ev # evs) s =
     (\<not> retains p e s ev \<and> none_retained p e evs (step p e ev s))"

text \<open>The event is the awaited media callback of the record \<open>r\<close>.\<close>

fun is_load :: "nat \<Rightarrow> event \<Rightarrow> bool" where
  "is_load r (MediaLoaded q m) = (q = r)"
| "is_load r ev = False"

section \<open>Invariants of the reachable states\<close>

text \<open>The \<open>meta.id\<close> of the retained objects, in the order of their creation.\<close>

definition ids :: "dropzone \<Rightarrow> jsval option list" where
  "ids s = map (\<lambda>f. meta f ''id'') (objs s)"

text \<open>No suspended \<open>uploadFile\<close> will resume with extra metadata that has the key \<open>k\<close>.\<close>

definition pending_ok :: "string \<Rightarrow> dropzone \<Rightarrow> bool" where
  "pending_ok k s =
     list_all (\<lambda>u. case snd u of None \<Rightarrow> True | Some q \<Rightarrow> up_meta q k = None) (uploads s)"

text \<open>The identifiers of the objects ever retained are \<open>0, 1, ...\<close> up to the counter, and
  \<open>this._files\<close> refers to existing objects, each once.\<close>

definition inv_id :: "dropzone \<Rightarrow> bool" where
  "inv_id s = (ids s = map (\<lambda>i. Some (Num (of_nat i))) [0..<id_counter s]
     \<and> pending_ok ''id'' s
     \<and> distinct (files s) \<and> list_all (\<lambda>r. r < length (objs s)) (files s))"

text \<open>A property of a record that the operations keep which write the status or a preview
  field, call the hook, or move the pipeline.\<close>

definition stable :: "props \<Rightarrow> (fileWithMeta \<Rightarrow> bool) \<Rightarrow> bool" where
  "stable p P =
     ((\<forall>f k v. k \<noteq> ''percent'' \<longrightarrow> P f \<longrightarrow> P (set_meta k v f))
      \<and> (\<forall>f. P f \<longrightarrow> P (handleChangeStatus p f))
      \<and> (\<forall>f st. P f \<longrightarrow> P (f\<lparr>pipeline := st\<rparr>))
      \<and> (\<forall>f b. P f \<longrightarrow> P (f\<lparr>triggerUpload_attr := b\<rparr>)))"






section \<open>Configurations, files and states used as examples\<close>

definition env0 :: env where
  "env0 = \<lparr>accepts = (\<lambda>f a. file_type f \<noteq> ''application/x-msdownload''),
           toISOString = (\<lambda>n. ''2018-11-01T00:00:00.000Z'')\<rparr>"

text \<open>No provider, no hook.\<close>

definition props_plain :: props where
  "props_plain = \<lparr>accept = ''*'', minSizeBytes = 0, maxSizeBytes = 1000, maxFiles = 2,
     previewTypes = Some [''image'', ''audio'', ''video''], getUploadParams = None,
     onChangeStatus = None, onUploadReady = None\<rparr>"

definition post_params :: upload_params where
  "post_params = \<lparr>up_fields = [], up_headers = [],
     up_meta = [''status'' \<mapsto> Str ''done'', ''fileUrl'' \<mapsto> Str ''https://example.test/a''],
     up_method = None, up_url = Some ''https://example.test/upload''\<rparr>"

text \<open>A provider; a provider and a hook; a hook that returns an \<open>id\<close>.\<close>

definition props_upload :: props where
  "props_upload = props_plain\<lparr>getUploadParams := Some (\<lambda>f. Some post_params)\<rparr>"

definition hook_seen :: "fileWithMeta \<Rightarrow> jsval \<Rightarrow> meta option" where
  "hook_seen f st = Some [''status'' \<mapsto> Str ''done'', ''seen'' \<mapsto> st]"

definition props_hook :: props where
  "props_hook = props_upload\<lparr>onChangeStatus := Some hook_seen\<rparr>"

definition props_hook_id :: props where
  "props_hook_id = props_plain\<lparr>onChangeStatus := Some (\<lambda>f st. Some [''id'' \<mapsto> Num 7])\<rparr>"

text \<open>A provider that resolves to nothing.\<close>

definition props_nourl :: props where
  "props_nourl = props_plain\<lparr>getUploadParams := Some (\<lambda>f. None)\<rparr>"

text \<open>No provider, and \<open>onUploadReady\<close> asks for a delay.\<close>

definition props_delay :: props where
  "props_delay = props_plain\<lparr>onUploadReady := Some (\<lambda>f. True)\<rparr>"

definition a_png :: rawfile where
  "a_png = \<lparr>file_name = ''a.png'', file_size = 500, file_type = ''image/png'',
            lastModified = 0\<rparr>"

definition b_txt :: rawfile where
  "b_txt = \<lparr>file_name = ''b.txt'', file_size = 20, file_type = ''text/plain'',
            lastModified = 0\<rparr>"

definition c_exe :: rawfile where
  "c_exe = \<lparr>file_name = ''c.exe'', file_size = 20, file_type = ''application/x-msdownload'',
            lastModified = 0\<rparr>"

definition d_mp3 :: rawfile where
  "d_mp3 = \<lparr>file_name = ''d.mp3'', file_size = 900, file_type = ''audio/mpeg'',
            lastModified = 1541030400000\<rparr>"

definition pic :: media where
  "pic = \<lparr>img_width = 640, img_height = 480, duration = 0, videoWidth = 0, videoHeight = 0\<rparr>"

text \<open>\<open>a.png\<close> accepted, decoded and triggered, with no provider.\<close>

definition s_done :: dropzone where
  "s_done =
     run props_plain env0 [HandleFile a_png ''t0'', MediaLoaded 0 pic, PreviewAwaited 0] init"

text \<open>
  \<open>b.txt\<close> accepted and triggered with a provider: \<open>uploadFile\<close> is suspended at its
  \<open>await\<close>. Then the provider's value has arrived and the request is sent.
\<close>

definition s_pending :: dropzone where
  "s_pending = run props_upload env0 [HandleFile b_txt ''t0'', PreviewAwaited 0] init"

definition s_uploading :: dropzone where
  "s_uploading = step props_upload env0 (ParamsResolved 0) s_pending"

text \<open>\<open>b.txt\<close> accepted with a delayed upload: the closure is attached and not called.\<close>

definition s_ready :: dropzone where
  "s_ready = run props_delay env0 [HandleFile b_txt ''t0'', PreviewAwaited 0] init"

text \<open>The request of \<open>b.txt\<close> has ended with the response status 500.\<close>

definition s_failed :: dropzone where
  "s_failed = step props_upload env0 (ReadyStateChange 0 4 500) s_uploading"

text \<open>\<open>b.txt\<close> accepted and triggered; the provider has resolved to nothing.\<close>

definition s_noparams :: dropzone where
  "s_noparams =
     run props_nourl env0 [HandleFile b_txt ''t0'', PreviewAwaited 0, ParamsResolved 0] init"

text \<open>\<open>a.png\<close> is retained, with a hook.\<close>

definition s_one :: dropzone where
  "s_one = run props_hook env0 [HandleFile a_png ''t0''] init"

section \<open>Evaluation\<close>

lemmas fixtures = env0_def props_plain_def post_params_def props_upload_def hook_seen_def
  props_hook_def props_hook_id_def props_nourl_def props_delay_def a_png_def b_txt_def c_exe_def d_mp3_def
  pic_def s_done_def s_pending_def s_uploading_def s_ready_def s_failed_def s_noparams_def
  s_one_def init_def

lemmas ops = handleFile_def new_fileWithMeta_def generatePreview_def
  generatePreview_resume_def handleFile_resume_def triggerUpload_def changeStatus_def
  log_call_def handleChangeStatus_def upd_def set_stage_def set_meta_def get_def
  revokeObjectURL_def startsWith_def uploadFile_def uploadFile_resume_def no_params_def
  on_progress_def on_readystatechange_def percent_of_def js_div_def js_or_def
  handleCancel_def handleRemove_def handleRestart_def componentWillUnmount_def abort_def
  strict_eq_def Let_def

lemma s_pending_eval:
  "files s_pending = [0] \<and> get ''status'' (objs s_pending ! 0) = Str ''uploading''
   \<and> xhr (objs s_pending ! 0) = None \<and> length (uploads s_pending) = 1"
  by (simp add: fixtures ops)

lemma s_uploading_eval:
  "files s_uploading = [0] \<and> get ''status'' (objs s_uploading ! 0) = Str ''uploading''
   \<and> xhr (objs s_uploading ! 0) = Some 0 \<and> map owner (xhrs s_uploading) = [0]
   \<and> get ''percent'' (objs s_uploading ! 0) = Num 0"
  by (simp add: fixtures ops)

section \<open>The progress listener\<close>


text \<open>
  Claim C6. The claim: a progress event sets \<open>percent\<close> to \<open>loaded / total * 100\<close>, and
  to exactly 100 when \<open>total\<close> is unknown or zero. The listener computes
  \<open>((e.loaded * 100.0) / e.total) || 100\<close>: with \<open>total = 0\<close> and \<open>loaded = 50\<close> the
  quotient is \<open>Infinity\<close>, which is truthy and is stored as it is; with \<open>loaded = 0\<close> and
  \<open>total = 100\<close> the quotient is 0, which is falsy, and 100 is stored instead of 0.
\<close>

theorem C6_progress_percent_at_failing_inputs:
  "get ''percent'' (objs (step props_upload env0 (Progress 0 50 0) s_uploading) ! 0) = Infinity
   \<and> get ''percent'' (objs (step props_upload env0 (Progress 0 0 100) s_uploading) ! 0)
       = Num 100"
  by (simp add: fixtures ops)

section \<open>Unmounting\<close>

lemma unmount_throws:
  assumes "files s = r # rs" "get ''status'' (objs s ! r) = Str ''uploading''"
    "xhr (objs s ! r) = None"
  shows "componentWillUnmount s = Inl TypeError"
  using assms by (simp add: componentWillUnmount_def)

text \<open>
  Claim C9. The claim: disposal aborts the request of every record whose status is
  \<open>uploading\<close> without faulting, also when the upload has been started and the request
  is not attached yet. In \<open>s_pending\<close> the only record is \<open>uploading\<close> and has no \<open>xhr\<close>:
  \<open>componentWillUnmount\<close> throws, and the suspended \<open>uploadFile\<close> later sends a request
  that nothing has aborted.
\<close>

theorem C9_unmount_throws_before_xhr_attached:
  "get ''status'' (objs s_pending ! 0) = Str ''uploading''
   \<and> xhr (objs s_pending ! 0) = None
   \<and> componentWillUnmount s_pending = Inl TypeError
   \<and> map aborted (xhrs (step props_upload env0 (ParamsResolved 0) s_pending)) = [False]"
  by (simp add: fixtures ops)

section \<open>What each operation leaves unchanged\<close>

lemma map_update_same:
  "h (g (xs ! r)) = h (xs ! r) \<Longrightarrow> map h (xs[r := g (xs ! r)]) = map h xs"
  by (cases "r < length xs") (simp_all add: map_update list_update_same_conv list_update_beyond)

lemma upd_fields [simp]:
  "id_counter (upd r g s) = id_counter s" "files (upd r g s) = files s"
  "uploads (upd r g s) = uploads s" "xhrs (upd r g s) = xhrs s" "urls (upd r g s) = urls s"
  "notified (upd r g s) = notified s" "unhandled (upd r g s) = unhandled s"
  "length (objs (upd r g s)) = length (objs s)"
  by (simp_all add: upd_def)

lemma set_stage_fields [simp]:
  "id_counter (set_stage r st s) = id_counter s" "files (set_stage r st s) = files s"
  "uploads (set_stage r st s) = uploads s" "xhrs (set_stage r st s) = xhrs s"
  "urls (set_stage r st s) = urls s"
  "notified (set_stage r st s) = notified s" "unhandled (set_stage r st s) = unhandled s"
  "length (objs (set_stage r st s)) = length (objs s)"
  by (simp_all add: set_stage_def)

lemma log_call_fields [simp]:
  "id_counter (log_call p f s) = id_counter s" "files (log_call p f s) = files s"
  "uploads (log_call p f s) = uploads s" "xhrs (log_call p f s) = xhrs s"
  "urls (log_call p f s) = urls s" "objs (log_call p f s) = objs s"
  "unhandled (log_call p f s) = unhandled s"
  by (simp_all add: log_call_def split: option.splits)

lemma changeStatus_fields [simp]:
  "id_counter (changeStatus p r s) = id_counter s" "files (changeStatus p r s) = files s"
  "uploads (changeStatus p r s) = uploads s" "xhrs (changeStatus p r s) = xhrs s"
  "urls (changeStatus p r s) = urls s" "unhandled (changeStatus p r s) = unhandled s"
  "length (objs (changeStatus p r s)) = length (objs s)"
  by (simp_all add: changeStatus_def)

lemma revoke_fields [simp]:
  "id_counter (revokeObjectURL u s) = id_counter s" "files (revokeObjectURL u s) = files s"
  "uploads (revokeObjectURL u s) = uploads s" "xhrs (revokeObjectURL u s) = xhrs s"
  "objs (revokeObjectURL u s) = objs s"
  "notified (revokeObjectURL u s) = notified s" "unhandled (revokeObjectURL u s) = unhandled s"
  by (simp_all add: revokeObjectURL_def)

lemma abort_fields [simp]:
  "id_counter (abort x s) = id_counter s" "files (abort x s) = files s"
  "uploads (abort x s) = uploads s" "length (xhrs (abort x s)) = length (xhrs s)"
  "objs (abort x s) = objs s" "urls (abort x s) = urls s"
  "notified (abort x s) = notified s" "unhandled (abort x s) = unhandled s"
  by (simp_all add: abort_def)

lemma uploadFile_fields [simp]:
  "id_counter (uploadFile p r s) = id_counter s" "files (uploadFile p r s) = files s"
  "xhrs (uploadFile p r s) = xhrs s"
  "objs (uploadFile p r s) = objs s" "urls (uploadFile p r s) = urls s"
  "notified (uploadFile p r s) = notified s"
  by (simp_all add: uploadFile_def split: option.splits)

lemma hook_keeps_meta:
  "hook_keeps k p \<Longrightarrow> k \<noteq> ''status'' \<Longrightarrow> meta (handleChangeStatus p f) k = meta f k"
  unfolding hook_keeps_def handleChangeStatus_def
  by (fastforce simp: map_add_def split: option.splits)

lemma handleChangeStatus_status: "meta (handleChangeStatus p f) ''status'' = meta f ''status''"
  by (auto simp: handleChangeStatus_def map_add_def split: option.splits)

lemma handleChangeStatus_other [simp]:
  "xhr (handleChangeStatus p f) = xhr f" "pipeline (handleChangeStatus p f) = pipeline f"
  "file_of (handleChangeStatus p f) = file_of f"
  "triggerUpload_attr (handleChangeStatus p f) = triggerUpload_attr f"
  by (auto simp: handleChangeStatus_def split: option.splits)

lemma set_meta_simps [simp]:
  "meta (set_meta k v f) = (meta f)(k \<mapsto> v)"
  "xhr (set_meta k v f) = xhr f" "pipeline (set_meta k v f) = pipeline f"
  "file_of (set_meta k v f) = file_of f"
  "triggerUpload_attr (set_meta k v f) = triggerUpload_attr f"
  by (simp_all add: set_meta_def)

lemma ids_upd: "(\<And>f. meta (g f) ''id'' = meta f ''id'') \<Longrightarrow> ids (upd r g s) = ids s"
  by (simp add: ids_def upd_def map_update_same)

lemma ids_set_stage [simp]: "ids (set_stage r st s) = ids s"
  by (simp add: set_stage_def ids_upd)

lemma ids_changeStatus: "hook_keeps ''id'' p \<Longrightarrow> ids (changeStatus p r s) = ids s"
  by (simp add: changeStatus_def ids_def upd_def map_update_same hook_keeps_meta)

lemma ids_congs [simp]:
  "ids (log_call p f s) = ids s" "ids (revokeObjectURL u s) = ids s" "ids (abort x s) = ids s"
  "ids (uploadFile p r s) = ids s"
  by (simp_all add: ids_def)

lemma ids_generatePreview [simp]: "ids (generatePreview p r s) = ids s"
  by (auto simp: generatePreview_def Let_def ids_upd ids_def[of "_\<lparr>urls := _\<rparr>"] ids_def[of "_\<lparr>unhandled := _\<rparr>"] ids_def[of s] split: option.splits jsval.splits)

lemma ids_generatePreview_resume [simp]: "ids (generatePreview_resume r m s) = ids s"
  by (auto simp: generatePreview_resume_def Let_def ids_upd split: stage.splits kind.splits)

lemma ids_triggerUpload: "hook_keeps ''id'' p \<Longrightarrow> ids (triggerUpload p r s) = ids s"
  by (auto simp: triggerUpload_def Let_def ids_upd ids_changeStatus split: stage.splits option.splits)

lemma ids_handleFile_resume: "hook_keeps ''id'' p \<Longrightarrow> ids (handleFile_resume p r s) = ids s"
  by (auto simp: handleFile_resume_def Let_def ids_upd ids_triggerUpload split: stage.splits option.splits)

lemma ids_on_progress [simp]: "ids (on_progress x l t s) = ids s"
  by (simp add: on_progress_def ids_upd)

lemma ids_on_readystatechange:
  "hook_keeps ''id'' p \<Longrightarrow> ids (on_readystatechange p x rs st s) = ids s"
  by (auto simp: on_readystatechange_def Let_def ids_upd ids_changeStatus)

lemma ids_handleCancel [simp]: "ids (handleCancel r s) = ids s"
  by (simp add: handleCancel_def split: option.splits)

lemma ids_handleRemove [simp]: "ids (handleRemove r s) = ids s"
  by (simp add: handleRemove_def ids_def split: option.splits)

lemma ids_handleRestart: "hook_keeps ''id'' p \<Longrightarrow> ids (handleRestart p r s) = ids s"
  by (simp add: handleRestart_def ids_upd ids_changeStatus)

lemma ids_uploadFile_resume:
  "hook_keeps ''id'' p \<Longrightarrow> (case params of None \<Rightarrow> True | Some q \<Rightarrow> up_meta q ''id'' = None)
   \<Longrightarrow> ids (uploadFile_resume p r params s) = ids s"
  by (auto simp: uploadFile_resume_def Let_def ids_upd ids_changeStatus no_params_def map_add_def
      ids_def[of "_\<lparr>xhrs := _\<rparr>"] ids_def[of s] split: option.splits)

lemma generatePreview_fields [simp]:
  "id_counter (generatePreview p r s) = id_counter s" "files (generatePreview p r s) = files s"
  "uploads (generatePreview p r s) = uploads s" "xhrs (generatePreview p r s) = xhrs s"
  "length (objs (generatePreview p r s)) = length (objs s)"
  by (auto simp: generatePreview_def Let_def split: option.splits jsval.splits)

lemma generatePreview_resume_fields [simp]:
  "id_counter (generatePreview_resume r m s) = id_counter s"
  "files (generatePreview_resume r m s) = files s"
  "uploads (generatePreview_resume r m s) = uploads s"
  "xhrs (generatePreview_resume r m s) = xhrs s"
  "length (objs (generatePreview_resume r m s)) = length (objs s)"
  by (auto simp: generatePreview_resume_def Let_def split: stage.splits)

lemma triggerUpload_fields [simp]:
  "id_counter (triggerUpload p r s) = id_counter s" "files (triggerUpload p r s) = files s"
  "xhrs (triggerUpload p r s) = xhrs s" "urls (triggerUpload p r s) = urls s"
  "length (objs (triggerUpload p r s)) = length (objs s)"
  by (auto simp: triggerUpload_def Let_def split: stage.splits option.splits)

lemma handleFile_resume_fields [simp]:
  "id_counter (handleFile_resume p r s) = id_counter s"
  "files (handleFile_resume p r s) = files s"
  "xhrs (handleFile_resume p r s) = xhrs s" "urls (handleFile_resume p r s) = urls s"
  "length (objs (handleFile_resume p r s)) = length (objs s)"
  by (auto simp: handleFile_resume_def Let_def split: stage.splits option.splits)

lemma on_progress_fields [simp]:
  "id_counter (on_progress x l t s) = id_counter s" "files (on_progress x l t s) = files s"
  "uploads (on_progress x l t s) = uploads s" "xhrs (on_progress x l t s) = xhrs s"
  "urls (on_progress x l t s) = urls s"
  "length (objs (on_progress x l t s)) = length (objs s)"
  by (simp_all add: on_progress_def)

lemma on_readystatechange_fields [simp]:
  "id_counter (on_readystatechange p x rs st s) = id_counter s"
  "files (on_readystatechange p x rs st s) = files s"
  "uploads (on_readystatechange p x rs st s) = uploads s"
  "xhrs (on_readystatechange p x rs st s) = xhrs s"
  "urls (on_readystatechange p x rs st s) = urls s"
  "length (objs (on_readystatechange p x rs st s)) = length (objs s)"
  by (simp_all add: on_readystatechange_def Let_def)

lemma handleCancel_fields [simp]:
  "id_counter (handleCancel r s) = id_counter s" "files (handleCancel r s) = files s"
  "uploads (handleCancel r s) = uploads s" "objs (handleCancel r s) = objs s"
  "length (xhrs (handleCancel r s)) = length (xhrs s)" "urls (handleCancel r s) = urls s"
  by (simp_all add: handleCancel_def split: option.splits)

lemma handleRemove_fields [simp]:
  "id_counter (handleRemove r s) = id_counter s"
  "uploads (handleRemove r s) = uploads s" "objs (handleRemove r s) = objs s"
  "xhrs (handleRemove r s) = xhrs s" "urls (handleRemove r s) = urls s"
  by (simp_all add: handleRemove_def split: option.splits)

lemma handleRestart_fields [simp]:
  "id_counter (handleRestart p r s) = id_counter s" "files (handleRestart p r s) = files s"
  "xhrs (handleRestart p r s) = xhrs s" "urls (handleRestart p r s) = urls s"
  "length (objs (handleRestart p r s)) = length (objs s)"
  by (simp_all add: handleRestart_def)

lemma uploadFile_resume_fields [simp]:
  "id_counter (uploadFile_resume p r q s) = id_counter s"
  "files (uploadFile_resume p r q s) = files s"
  "uploads (uploadFile_resume p r q s) = uploads s"
  "urls (uploadFile_resume p r q s) = urls s"
  "length (objs (uploadFile_resume p r q s)) = length (objs s)"
  by (simp_all add: uploadFile_resume_def Let_def)

lemma pending_ok_uploadFile:
  "provider_keeps k p \<Longrightarrow> pending_ok k s \<Longrightarrow> pending_ok k (uploadFile p r s)"
  unfolding provider_keeps_def pending_ok_def uploadFile_def
  by (auto split: option.splits)

lemma pending_ok_congs [simp]:
  "pending_ok k (upd r g s) = pending_ok k s"
  "pending_ok k (set_stage r st s) = pending_ok k s"
  "pending_ok k (changeStatus p r s) = pending_ok k s"
  "pending_ok k (log_call p f s) = pending_ok k s"
  by (simp_all add: pending_ok_def)

lemma pending_ok_triggerUpload:
  "provider_keeps k p \<Longrightarrow> pending_ok k s \<Longrightarrow> pending_ok k (triggerUpload p r s)"
  by (auto simp: triggerUpload_def Let_def pending_ok_uploadFile split: stage.splits option.splits)

lemma pending_ok_handleFile_resume:
  "provider_keeps k p \<Longrightarrow> pending_ok k s \<Longrightarrow> pending_ok k (handleFile_resume p r s)"
  by (auto simp: handleFile_resume_def Let_def pending_ok_triggerUpload
      split: stage.splits option.splits)

lemma pending_ok_handleRestart:
  "provider_keeps k p \<Longrightarrow> pending_ok k s \<Longrightarrow> pending_ok k (handleRestart p r s)"
  by (simp add: handleRestart_def pending_ok_uploadFile)

lemma pending_ok_remove:
  "pending_ok k s \<Longrightarrow> pending_ok k (s\<lparr>uploads := take n (uploads s) @ drop (Suc n) (uploads s)\<rparr>)"
  unfolding pending_ok_def list_all_iff
  by (auto dest: in_set_takeD in_set_dropD)

lemma pending_ok_nth:
  "pending_ok k s \<Longrightarrow> n < length (uploads s) \<Longrightarrow>
   (case snd (uploads s ! n) of None \<Rightarrow> True | Some q \<Rightarrow> up_meta q k = None)"
  unfolding pending_ok_def list_all_length by simp

lemma handleFile_rejects:
  assumes "\<not> retains p e s (HandleFile f now)"
  shows "objs (handleFile p e f now s) = objs s" "id_counter (handleFile p e f now s) = id_counter s"
    "files (handleFile p e f now s) = files s" "uploads (handleFile p e f now s) = uploads s"
    "xhrs (handleFile p e f now s) = xhrs s"
  using assms by (auto simp: handleFile_def Let_def)

lemma handleFile_retains_fields:
  assumes "retains p e s (HandleFile f now)"
  shows "id_counter (handleFile p e f now s) = Suc (id_counter s)"
    "files (handleFile p e f now s) = files s @ [length (objs s)]"
    "uploads (handleFile p e f now s) = uploads s"
    "xhrs (handleFile p e f now s) = xhrs s"
    "length (objs (handleFile p e f now s)) = Suc (length (objs s))"
  using assms by (auto simp: handleFile_def Let_def)

lemma ids_handleFile_retains:
  assumes "retains p e s (HandleFile f now)" "hook_keeps ''id'' p"
  shows "ids (handleFile p e f now s) = ids s @ [Some (Num (of_nat (id_counter s)))]"
proof -
  let ?s1 = "s\<lparr>objs := objs s @ [set_meta ''status'' (Str ''preparing'')
                 (new_fileWithMeta e now (id_counter s) f)],
               files := files s @ [length (objs s)]\<rparr>"
  have 1: "ids ?s1 = ids s @ [Some (Num (of_nat (id_counter s)))]"
    by (simp add: ids_def new_fileWithMeta_def)
  let ?s3 = "(changeStatus p (length (objs s)) ?s1)\<lparr>id_counter := Suc (id_counter s)\<rparr>"
  have 3: "ids ?s3 = ids s @ [Some (Num (of_nat (id_counter s)))]"
    using 1 ids_changeStatus[OF assms(2), of "length (objs s)" ?s1] by (simp add: ids_def)
  show ?thesis
    using assms(1) 3
    by (auto simp: handleFile_def Let_def ids_changeStatus[OF assms(2)] ids_upd)
qed

lemma inv_id_handleFile:
  assumes "hook_keeps ''id'' p" "inv_id s"
  shows "inv_id (handleFile p e f now s)"
proof (cases "retains p e s (HandleFile f now)")
  case False
  then show ?thesis
    using assms(2) by (simp add: inv_id_def ids_def pending_ok_def handleFile_rejects)
next
  case True
  have len: "length (objs s) = id_counter s"
    using assms(2) unfolding inv_id_def ids_def by (auto dest: map_eq_imp_length_eq)
  show ?thesis
    using assms(2) len
    by (auto simp: inv_id_def handleFile_retains_fields[OF True]
        ids_handleFile_retains[OF True assms(1)] pending_ok_def list_all_iff less_Suc_eq)
qed

lemma distinct_remove_nth: "distinct xs \<Longrightarrow> distinct (take i xs @ drop (Suc i) xs)"
  by (metis distinct_drop distinct_take distinct_append set_take_disj_set_drop_if_distinct
      Suc_n_not_le_n nat_le_linear)

lemma inv_id_handleRemove:
  assumes "inv_id s"
  shows "inv_id (handleRemove r s)"
proof (cases "findIndex (\<lambda>q. strict_eq (get ''id'' (objs s ! q)) (get ''id'' (objs s ! r)))
                (files s)")
  case None
  then show ?thesis using assms by (simp add: handleRemove_def)
next
  case (Some i)
  let ?fs = "take i (files s) @ drop (Suc i) (files s)"
  have d: "distinct ?fs" using assms distinct_remove_nth[of "files s" i] by (simp only: inv_id_def)
  have "set ?fs \<subseteq> set (files s)" by (auto dest: in_set_takeD in_set_dropD)
  then have b: "list_all (\<lambda>r. r < length (objs s)) ?fs"
    using assms unfolding inv_id_def list_all_iff by blast
  have "handleRemove r s = s\<lparr>files := ?fs\<rparr>" using Some by (simp add: handleRemove_def)
  then show ?thesis
    using assms d b by (simp add: inv_id_def ids_def pending_ok_def)
qed

lemma inv_id_step:
  assumes "hook_keeps ''id'' p" "provider_keeps ''id'' p" "inv_id s"
  shows "inv_id (step p e ev s)"
proof (cases ev)
  case (HandleFile f now)
  then show ?thesis using assms by (simp add: inv_id_handleFile)
next
  case (ParamsResolved n)
  show ?thesis
  proof (cases "n < length (uploads s)")
    case False
    then show ?thesis using assms ParamsResolved by simp
  next
    case True
    let ?s = "s\<lparr>uploads := take n (uploads s) @ drop (Suc n) (uploads s)\<rparr>"
    have a: "pending_ok ''id'' ?s"
      using assms(3) by (simp add: inv_id_def pending_ok_remove)
    have b: "ids ?s = ids s" by (simp add: ids_def)
    have c: "ids (uploadFile_resume p (fst (uploads s ! n)) (snd (uploads s ! n)) ?s) = ids ?s"
      using assms(3) pending_ok_nth[OF _ True, of "''id''"]
      by (intro ids_uploadFile_resume[OF assms(1)]) (simp add: inv_id_def)
    show ?thesis
      using assms(3) a b c True ParamsResolved
      by (simp add: inv_id_def pending_ok_def)
  qed
next
  case (Remove r)
  then show ?thesis using assms by (simp add: inv_id_handleRemove)
qed (use assms in \<open>simp_all add: inv_id_def ids_triggerUpload ids_handleFile_resume
      ids_on_readystatechange ids_handleRestart pending_ok_triggerUpload
      pending_ok_handleFile_resume pending_ok_handleRestart
      pending_ok_def[of _ "generatePreview_resume _ _ _"]
      pending_ok_def[of _ "on_progress _ _ _ _"]
      pending_ok_def[of _ "on_readystatechange _ _ _ _ _"]
      pending_ok_def[of _ "handleCancel _ _"] pending_ok_def[of _ s]\<close>)

lemma inv_id_run:
  "hook_keeps ''id'' p \<Longrightarrow> provider_keeps ''id'' p \<Longrightarrow> inv_id s \<Longrightarrow> inv_id (run p e evs s)"
  by (induction evs arbitrary: s) (simp_all add: inv_id_step)

lemma inv_id_init: "inv_id init"
  by (simp add: inv_id_def init_def ids_def pending_ok_def)

section \<open>Properties of every retained record\<close>

lemma stableD:
  assumes "stable p P"
  shows "k \<noteq> ''percent'' \<Longrightarrow> P f \<Longrightarrow> P (set_meta k v f)"
    "P f \<Longrightarrow> P (handleChangeStatus p f)"
    "P f \<Longrightarrow> P (f\<lparr>pipeline := st\<rparr>)" "P f \<Longrightarrow> P (f\<lparr>triggerUpload_attr := b\<rparr>)"
  using assms unfolding stable_def by blast+

lemma list_all_update:
  assumes "list_all P xs" "\<And>f. P f \<Longrightarrow> P (g f)"
  shows "list_all P (xs[r := g (xs ! r)])"
proof (cases "r < length xs")
  case True
  then have "P (g (xs ! r))" using assms by (simp add: list_all_length)
  then show ?thesis
    using assms(1) set_update_subset_insert[of xs r "g (xs ! r)"]
    unfolding list_all_iff by blast
next
  case False
  then show ?thesis using assms(1) by (simp add: list_update_beyond)
qed

lemma all_upd:
  "(\<And>f. P f \<Longrightarrow> P (g f)) \<Longrightarrow> list_all P (objs s) \<Longrightarrow> list_all P (objs (upd r g s))"
  unfolding upd_def by (simp add: list_all_update)


lemma all_changeStatus:
  "stable p P \<Longrightarrow> list_all P (objs s) \<Longrightarrow> list_all P (objs (changeStatus p r s))"
  unfolding changeStatus_def by (rule all_upd) (auto dest: stableD)







lemma all_uploadFile_resume_no_url:
  assumes st: "stable p P" and "list_all P (objs s)"
    and "(case q of None \<Rightarrow> True | Some q \<Rightarrow> up_url q = None \<or> up_url q = Some [])"
  shows "list_all P (objs (uploadFile_resume p r q s))"
proof -
  note [simp] = stableD[OF st] all_upd all_changeStatus[OF st]
  show ?thesis
    using assms(2,3)
    by (auto simp: uploadFile_resume_def Let_def no_params_def split: option.splits)
qed



section \<open>Requests and their handles\<close>

lemma handleFile_fields [simp]:
  "uploads (handleFile p e f now s) = uploads s" "xhrs (handleFile p e f now s) = xhrs s"
  by (auto simp: handleFile_def Let_def)













lemma has_url_cases:
  "(case q of None \<Rightarrow> True | Some q \<Rightarrow> up_url q = None \<or> up_url q = Some [])
   \<or> (\<exists>q' u. q = Some q' \<and> up_url q' = Some u \<and> u \<noteq> [])"
  by (cases q) auto

lemma uploadFile_resume_no_url:
  assumes "(case q of None \<Rightarrow> True | Some q \<Rightarrow> up_url q = None \<or> up_url q = Some [])"
  shows "uploadFile_resume p r q s =
           changeStatus p r (upd r (set_meta ''status'' (Str ''error_upload_params'')) s)"
  using assms by (auto simp: uploadFile_resume_def Let_def no_params_def split: option.splits)

lemma uploadFile_resume_url:
  assumes "up_url q = Some u" "u \<noteq> []"
  shows "xhrs (uploadFile_resume p r (Some q) s) =
           xhrs s @ [\<lparr>owner = r,
                      req_method = (case up_method q of None \<Rightarrow> ''POST'' | Some m \<Rightarrow> m),
                      req_url = u,
                      req_headers = (''X-Requested-With'', ''XMLHttpRequest'') # up_headers q,
                      form = map (\<lambda>(k, v). (k, Field v)) (up_fields q)
                             @ [(''file'', FilePart (file_of (objs s ! r)))],
                      aborted = False\<rparr>]"
    "objs (uploadFile_resume p r (Some q) s) =
       (objs s)[r := (objs s ! r)\<lparr>meta := meta (objs s ! r) ++ (up_meta q)(''status'' := None),
                                 xhr := Some (length (xhrs s))\<rparr>]"
  using assms by (simp_all add: uploadFile_resume_def Let_def upd_def)






section \<open>Identifiers\<close>

lemma inv_id_get:
  assumes "inv_id s" "r < length (objs s)"
  shows "get ''id'' (objs s ! r) = Num (of_nat r)"
proof -
  have len: "length (objs s) = id_counter s"
    using assms(1) unfolding inv_id_def ids_def by (auto dest: map_eq_imp_length_eq)
  have "ids s ! r = Some (Num (of_nat r))"
    using assms len by (simp add: inv_id_def)
  then show ?thesis using assms(2) by (simp add: ids_def get_def)
qed

lemma inv_id_distinct:
  assumes "inv_id s"
  shows "distinct (map (get ''id'') (objs s))"
    and "distinct (map (\<lambda>r. get ''id'' (objs s ! r)) (files s))"
    and "list_all (\<lambda>r. r < length (objs s)) (files s)"
proof -
  have "map (get ''id'') (objs s) = map (\<lambda>i. Num (of_nat i)) [0..<length (objs s)]"
    using inv_id_get[OF assms] by (intro nth_equalityI) simp_all
  then show "distinct (map (get ''id'') (objs s))"
    by (simp add: distinct_map inj_on_def)
  show b: "list_all (\<lambda>r. r < length (objs s)) (files s)"
    using assms by (simp add: inv_id_def)
  have "inj_on (\<lambda>r. get ''id'' (objs s ! r)) (set (files s))"
    using b inv_id_get[OF assms] unfolding list_all_iff inj_on_def by auto
  then show "distinct (map (\<lambda>r. get ''id'' (objs s ! r)) (files s))"
    using assms by (simp add: distinct_map inv_id_def)
qed

lemma hook_keeps_props_hook: "k \<noteq> ''status'' \<Longrightarrow> k \<noteq> ''seen'' \<Longrightarrow> hook_keeps k props_hook"
  by (auto simp: hook_keeps_def props_hook_def hook_seen_def)

lemma provider_keeps_props_hook:
  "k \<noteq> ''status'' \<Longrightarrow> k \<noteq> ''fileUrl'' \<Longrightarrow> provider_keeps k props_hook"
  by (auto simp: provider_keeps_def props_hook_def props_upload_def props_plain_def
      post_params_def)

text \<open>
  Claim C8. The claim: over every sequence of accept, remove and restart operations, any
  two records ever retained have distinct \<open>meta.id\<close>, also across removals. The code
  strips only \<open>status\<close> from the metadata a collaborator supplies, so a hook or a provider
  that supplies an \<open>id\<close> replaces the record's. Amended: when no replacement metadata of
  the hook and no extra metadata of the provider has the key \<open>id\<close>, then after every
  sequence of events the records ever retained have pairwise distinct \<open>meta.id\<close>, and so
  have the records of \<open>this._files\<close>, which are existing objects.
\<close>

theorem C8_ids_distinct_when_not_replaced:
  assumes "hook_keeps ''id'' p" and "provider_keeps ''id'' p"
  shows "distinct (map (get ''id'') (objs (run p e evs init)))
    \<and> distinct (map (\<lambda>r. get ''id'' (objs (run p e evs init) ! r)) (files (run p e evs init)))
    \<and> list_all (\<lambda>r. r < length (objs (run p e evs init))) (files (run p e evs init))"
  using inv_id_distinct[OF inv_id_run[OF assms inv_id_init, of e evs]] by simp

theorem C8_witness:
  "hook_keeps ''id'' props_hook \<and> provider_keeps ''id'' props_hook
   \<and> files (run props_hook env0
        [HandleFile a_png ''t0'', HandleFile b_txt ''t1'', Remove 0, HandleFile a_png ''t2'',
         PreviewAwaited 1, ParamsResolved 0, Restart 1] init) = [1, 2]
   \<and> distinct (map (\<lambda>r. get ''id'' (objs (run props_hook env0
        [HandleFile a_png ''t0'', HandleFile b_txt ''t1'', Remove 0, HandleFile a_png ''t2'',
         PreviewAwaited 1, ParamsResolved 0, Restart 1] init) ! r))
       (files (run props_hook env0
        [HandleFile a_png ''t0'', HandleFile b_txt ''t1'', Remove 0, HandleFile a_png ''t2'',
         PreviewAwaited 1, ParamsResolved 0, Restart 1] init)))
   \<and> map (get ''id'') (objs (run props_hook env0
        [HandleFile a_png ''t0'', HandleFile b_txt ''t1'', Remove 0, HandleFile a_png ''t2'',
         PreviewAwaited 1, ParamsResolved 0, Restart 1] init)) = [Num 0, Num 1, Num 2]"
proof -
  have h: "hook_keeps ''id'' props_hook" by (simp add: hook_keeps_props_hook)
  have g: "provider_keeps ''id'' props_hook" by (simp add: provider_keeps_props_hook)
  have f: "files (run props_hook env0
        [HandleFile a_png ''t0'', HandleFile b_txt ''t1'', Remove 0, HandleFile a_png ''t2'',
         PreviewAwaited 1, ParamsResolved 0, Restart 1] init) = [1, 2]"
    by (simp add: fixtures ops)
  have i: "map (get ''id'') (objs (run props_hook env0
        [HandleFile a_png ''t0'', HandleFile b_txt ''t1'', Remove 0, HandleFile a_png ''t2'',
         PreviewAwaited 1, ParamsResolved 0, Restart 1] init)) = [Num 0, Num 1, Num 2]"
    by (simp add: fixtures ops)
  show ?thesis
    using h g f i C8_ids_distinct_when_not_replaced[OF h g, of env0
        "[HandleFile a_png ''t0'', HandleFile b_txt ''t1'', Remove 0, HandleFile a_png ''t2'',
         PreviewAwaited 1, ParamsResolved 0, Restart 1]"]
    by simp
qed

text \<open>
  With a hook that returns \<open>{ meta: { id: 7 } }\<close>, two files are retained and both
  carry \<open>meta.id = 7\<close>.
\<close>

theorem C8_counterexample:
  "files (run props_hook_id env0 [HandleFile a_png ''t0'', HandleFile b_txt ''t1''] init) = [0, 1]
   \<and> get ''id'' (objs (run props_hook_id env0
         [HandleFile a_png ''t0'', HandleFile b_txt ''t1''] init) ! 0) = Num 7
   \<and> get ''id'' (objs (run props_hook_id env0
         [HandleFile a_png ''t0'', HandleFile b_txt ''t1''] init) ! 1) = Num 7
   \<and> \<not> distinct (map (\<lambda>r. get ''id'' (objs (run props_hook_id env0
         [HandleFile a_png ''t0'', HandleFile b_txt ''t1''] init) ! r))
        (files (run props_hook_id env0 [HandleFile a_png ''t0'', HandleFile b_txt ''t1''] init)))"
  by (simp add: fixtures ops)

section \<open>The record an operation works on\<close>

lemma nth_upd [simp]: "r < length (objs s) \<Longrightarrow> objs (upd r g s) ! r = g (objs s ! r)"
  by (simp add: upd_def)

lemma nth_set_stage [simp]:
  "r < length (objs s) \<Longrightarrow> objs (set_stage r st s) ! r = (objs s ! r)\<lparr>pipeline := st\<rparr>"
  by (simp add: set_stage_def)

lemma nth_changeStatus [simp]:
  "r < length (objs s) \<Longrightarrow> objs (changeStatus p r s) ! r = handleChangeStatus p (objs s ! r)"
  by (simp add: changeStatus_def)

lemma get_simps [simp]:
  "get k (set_meta k' v f) = (if k = k' then v else get k f)"
  "get k (f\<lparr>pipeline := st\<rparr>) = get k f"
  "get k (f\<lparr>triggerUpload_attr := b\<rparr>) = get k f"
  "get ''status'' (handleChangeStatus p f) = get ''status'' f"
  by (simp_all add: get_def set_meta_def handleChangeStatus_status)







lemma hook_keeps_plain: "hook_keeps k props_plain"
  by (simp add: hook_keeps_def props_plain_def)

section \<open>Restart\<close>







text \<open>
  With no provider at all, \<open>uploadFile\<close> throws when it calls the provider: the
  restarted record stays \<open>uploading\<close> with nothing suspended.
\<close>

lemma restart_without_provider:
  "getUploadParams props_plain = None
   \<and> get ''status'' (objs s_done ! 0) = Str ''done''
   \<and> get ''status'' (objs (handleRestart props_plain 0 s_done) ! 0) = Str ''uploading''
   \<and> xhr (objs (handleRestart props_plain 0 s_done) ! 0) = None
   \<and> xhrs (handleRestart props_plain 0 s_done) = []
   \<and> uploads (handleRestart props_plain 0 s_done) = []
   \<and> unhandled (handleRestart props_plain 0 s_done) = [TypeError]"
  by (simp add: fixtures ops)

section \<open>Metadata supplied from outside\<close>





section \<open>Progress\<close>








section \<open>Rejected files\<close>

lemma notified_fields [simp]:
  "notified (generatePreview p r s) = notified s"
  by (auto simp: generatePreview_def Let_def split: option.splits jsval.splits)

lemma notified_changeStatus:
  "onChangeStatus p = Some hook \<Longrightarrow> notified (changeStatus p r s) = notified s @ [objs s ! r]"
  by (simp add: changeStatus_def log_call_def)

lemma id_counter_step: "\<not> retains p e s ev \<Longrightarrow> id_counter (step p e ev s) = id_counter s"
  by (cases ev) (simp_all add: handleFile_rejects)

lemma id_counter_run: "none_retained p e evs s \<Longrightarrow> id_counter (run p e evs s) = id_counter s"
  by (induction evs arbitrary: s) (simp_all add: id_counter_step)

lemma handleFile_rejects_notified:
  assumes "\<not> retains p e s (HandleFile f now)" "onChangeStatus p = Some hook"
  shows "length (notified (handleFile p e f now s)) = Suc (length (notified s))"
    "get ''id'' (last (notified (handleFile p e f now s))) = Num (of_nat (id_counter s))"
    "get ''status'' (last (notified (handleFile p e f now s))) = Str ''rejected_file_type''
     \<or> get ''status'' (last (notified (handleFile p e f now s))) = Str ''rejected_max_files''"
  using assms
  by (auto simp: handleFile_def Let_def log_call_def new_fileWithMeta_def get_def)

lemma handleFile_retains_notified:
  assumes "retains p e s (HandleFile f now)" "onChangeStatus p = Some hook"
  shows "notified (handleFile p e f now s) ! length (notified s) =
           set_meta ''status'' (Str ''preparing'') (new_fileWithMeta e now (id_counter s) f)"
  using assms
  by (auto simp: handleFile_def Let_def notified_changeStatus nth_append)

lemma handleFile_retains_id:
  assumes "retains p e s (HandleFile f now)" "hook_keeps ''id'' p"
  shows "get ''id'' (objs (handleFile p e f now s) ! length (objs s)) = Num (of_nat (id_counter s))"
proof -
  have "ids (handleFile p e f now s) ! length (ids s) = Some (Num (of_nat (id_counter s)))"
    by (simp add: ids_handleFile_retains[OF assms])
  then show ?thesis
    by (simp add: ids_def get_def handleFile_retains_fields(5)[OF assms(1)])
qed

text \<open>
  Claim C10. The counter \<open>id\<close> is incremented only when a record is retained: a file
  rejected for its type or for capacity leaves the counter, \<open>this._files\<close> and the
  retained objects as they are, and the record handed to the hook carries the counter's
  value; after any events that retain nothing, the next file that is retained is handed
  to the hook with the same \<open>meta.id\<close>, and keeps it when the hook returns no \<open>id\<close>.
\<close>

theorem C10_rejected_record_shares_next_id:
  assumes "onChangeStatus p = Some hook"
    and "\<not> retains p e s (HandleFile f now)"
    and "s1 = handleFile p e f now s"
    and "none_retained p e evs s1"
    and "s2 = run p e evs s1"
    and "retains p e s2 (HandleFile g now')"
    and "s3 = handleFile p e g now' s2"
  shows "id_counter s1 = id_counter s \<and> files s1 = files s \<and> objs s1 = objs s
    \<and> length (notified s1) = Suc (length (notified s))
    \<and> get ''id'' (last (notified s1)) = Num (of_nat (id_counter s))
    \<and> (get ''status'' (last (notified s1)) = Str ''rejected_file_type''
       \<or> get ''status'' (last (notified s1)) = Str ''rejected_max_files'')
    \<and> files s3 = files s2 @ [length (objs s2)]
    \<and> get ''status'' (notified s3 ! length (notified s2)) = Str ''preparing''
    \<and> get ''id'' (notified s3 ! length (notified s2)) = Num (of_nat (id_counter s))
    \<and> (hook_keeps ''id'' p \<longrightarrow>
          get ''id'' (objs s3 ! length (objs s2)) = Num (of_nat (id_counter s)))
    \<and> id_counter s3 = Suc (id_counter s)"
proof -
  have c: "id_counter s2 = id_counter s"
    using assms(2-5) by (simp add: id_counter_run handleFile_rejects)
  have n: "notified s3 ! length (notified s2) =
      set_meta ''status'' (Str ''preparing'') (new_fileWithMeta e now' (id_counter s) g)"
    using handleFile_retains_notified[OF assms(6,1)] assms(7) c by simp
  have "get ''id'' (notified s3 ! length (notified s2)) = Num (of_nat (id_counter s))"
    "get ''status'' (notified s3 ! length (notified s2)) = Str ''preparing''"
    unfolding n by (simp_all add: new_fileWithMeta_def get_def)
  then show ?thesis
    using handleFile_rejects[OF assms(2)] handleFile_rejects_notified[OF assms(2,1)]
      handleFile_retains_fields[OF assms(6)] handleFile_retains_id[OF assms(6)] assms(3,7) c
    by simp
qed

theorem C10_witness:
  "onChangeStatus props_hook = Some hook_seen
   \<and> \<not> retains props_hook env0 s_one (HandleFile c_exe ''t1'')
   \<and> none_retained props_hook env0 [MediaLoaded 0 pic, PreviewAwaited 0]
        (handleFile props_hook env0 c_exe ''t1'' s_one)
   \<and> retains props_hook env0
        (run props_hook env0 [MediaLoaded 0 pic, PreviewAwaited 0]
           (handleFile props_hook env0 c_exe ''t1'' s_one)) (HandleFile b_txt ''t2'')
   \<and> id_counter s_one = 1
   \<and> get ''id'' (last (notified (handleFile props_hook env0 c_exe ''t1'' s_one))) = Num 1
   \<and> get ''status'' (last (notified (handleFile props_hook env0 c_exe ''t1'' s_one)))
       = Str ''rejected_file_type''
   \<and> hook_keeps ''id'' props_hook
   \<and> get ''id'' (objs (handleFile props_hook env0 b_txt ''t2''
        (run props_hook env0 [MediaLoaded 0 pic, PreviewAwaited 0]
           (handleFile props_hook env0 c_exe ''t1'' s_one))) ! 1) = Num 1"
proof -
  define s1 where "s1 = handleFile props_hook env0 c_exe ''t1'' s_one"
  define s2 where "s2 = run props_hook env0 [MediaLoaded 0 pic, PreviewAwaited 0] s1"
  define s3 where "s3 = handleFile props_hook env0 b_txt ''t2'' s2"
  have a: "onChangeStatus props_hook = Some hook_seen" by (simp add: fixtures)
  have b: "\<not> retains props_hook env0 s_one (HandleFile c_exe ''t1'')"
    by (simp add: fixtures)
  have c: "none_retained props_hook env0 [MediaLoaded 0 pic, PreviewAwaited 0] s1"
    by simp
  have l: "length (objs s2) = 1" "length (files s2) = 1"
    unfolding s2_def s1_def by (simp_all add: fixtures ops)
  have d: "retains props_hook env0 s2 (HandleFile b_txt ''t2'')"
    using l(2) by (simp add: fixtures)
  have e: "id_counter s_one = 1"
    by (simp add: fixtures ops)
  have g: "hook_keeps ''id'' props_hook" by (simp add: hook_keeps_props_hook)
  note th = C10_rejected_record_shares_next_id[OF a b s1_def c s2_def d s3_def]
  have f: "get ''status'' (last (notified s1)) = Str ''rejected_file_type''"
    unfolding s1_def by (simp add: fixtures ops)
  have "get ''id'' (last (notified s1)) = Num 1" "get ''id'' (objs s3 ! 1) = Num 1"
    using th e g l(1) by simp_all
  then show ?thesis
    using a b c d e f g unfolding s3_def s2_def s1_def by blast
qed

section \<open>Metadata extraction\<close>

lemma generatePreview_resume_revokes:
  assumes "pipeline (objs s ! r) = AwaitMedia k u" "r < length (objs s)" "u < length (urls s)"
  shows "urls (generatePreview_resume r m s) ! u = False"
    "pipeline (objs (generatePreview_resume r m s) ! r) = AwaitPreview"
    "get ''previewUrl'' (objs (generatePreview_resume r m s) ! r) = get ''previewUrl'' (objs s ! r)"
  using assms
  by (auto simp: generatePreview_resume_def Let_def revokeObjectURL_def split: kind.splits)

text \<open>
  Claim C5. The claim: for audio and video the object URL is released as soon as
  decoding completes or fails; for an image it is kept in \<open>meta.previewUrl\<close> and not
  released by the extractor. For \<open>a.png\<close>, once \<open>onload\<close> has fired, \<open>meta.previewUrl\<close>
  holds the URL and the URL is revoked. For \<open>d.mp3\<close>, when decoding fails, the URL is
  never revoked.
\<close>

theorem C5_object_url_at_failing_inputs:
  "get ''previewUrl''
     (objs (run props_plain env0 [HandleFile a_png ''t0'', MediaLoaded 0 pic] init) ! 0) = ObjectUrl 0
   \<and> urls (run props_plain env0 [HandleFile a_png ''t0''] init) = [True]
   \<and> urls (run props_plain env0 [HandleFile a_png ''t0'', MediaLoaded 0 pic] init) = [False]
   \<and> pipeline (objs (run props_plain env0 [HandleFile d_mp3 ''t0''] init) ! 0) = AwaitMedia Audio 0
   \<and> urls (run props_plain env0 [HandleFile d_mp3 ''t0'', MediaError 0] init) = [True]"
  by (simp add: fixtures ops)

lemma pipeline_kept [simp]:
  "pipeline (handleChangeStatus p f) = pipeline f"
  by simp

lemma stage_other:
  assumes "q \<noteq> r"
  shows "objs (upd q g s) ! r = objs s ! r" "objs (set_stage q st s) ! r = objs s ! r"
    "objs (changeStatus p q s) ! r = objs s ! r"
  using assms by (simp_all add: upd_def set_stage_def changeStatus_def)

lemma stage_upd:
  "(\<And>f. pipeline (g f) = pipeline f) \<Longrightarrow> r < length (objs s) \<Longrightarrow>
   pipeline (objs (upd q g s) ! r) = pipeline (objs s ! r)"
  by (cases "q = r") (simp_all add: stage_other)

lemma stage_changeStatus:
  "r < length (objs s) \<Longrightarrow> pipeline (objs (changeStatus p q s) ! r) = pipeline (objs s ! r)"
  using stage_upd[of "handleChangeStatus p" r "log_call p (objs s ! q) s" q]
  by (simp add: changeStatus_def)

lemma other_generatePreview: "q \<noteq> r \<Longrightarrow> objs (generatePreview p q s) ! r = objs s ! r"
  by (auto simp: generatePreview_def Let_def stage_other split: option.splits jsval.splits)

lemma other_generatePreview_resume:
  "q \<noteq> r \<Longrightarrow> objs (generatePreview_resume q m s) ! r = objs s ! r"
  by (auto simp: generatePreview_resume_def Let_def stage_other split: stage.splits)

lemma other_triggerUpload: "q \<noteq> r \<Longrightarrow> objs (triggerUpload p q s) ! r = objs s ! r"
  by (auto simp: triggerUpload_def Let_def stage_other split: stage.splits option.splits)

lemma other_handleFile_resume:
  "q \<noteq> r \<Longrightarrow> objs (handleFile_resume p q s) ! r = objs s ! r"
  by (auto simp: handleFile_resume_def Let_def stage_other other_triggerUpload
      split: stage.splits option.splits)

lemma awaiting_no_resume:
  assumes "pipeline (objs s ! r) = AwaitMedia k u"
  shows "handleFile_resume p r s = s" "triggerUpload p r s = s"
  using assms by (simp_all add: handleFile_resume_def triggerUpload_def)

lemma handleFile_old:
  assumes "r < length (objs s)"
  shows "objs (handleFile p e f now s) ! r = objs s ! r"
proof -
  have n: "length (objs s) \<noteq> r" using assms by simp
  show ?thesis
    using assms
    by (simp add: handleFile_def Let_def stage_other[OF n] other_generatePreview[OF n]
        nth_append)
qed

lemma stage_on_progress:
  "r < length (objs s) \<Longrightarrow> pipeline (objs (on_progress x l t s) ! r) = pipeline (objs s ! r)"
  by (simp add: on_progress_def stage_upd)

lemma stage_on_readystatechange:
  "r < length (objs s) \<Longrightarrow>
   pipeline (objs (on_readystatechange p x rs st s) ! r) = pipeline (objs s ! r)"
  by (simp add: on_readystatechange_def Let_def stage_upd stage_changeStatus)

lemma stage_handleRestart:
  "r < length (objs s) \<Longrightarrow> pipeline (objs (handleRestart p q s) ! r) = pipeline (objs s ! r)"
  by (simp add: handleRestart_def stage_upd stage_changeStatus)

lemma stage_uploadFile_resume:
  assumes "r < length (objs s)"
  shows "pipeline (objs (uploadFile_resume p q params s) ! r) = pipeline (objs s ! r)"
proof -
  consider (no) "(case params of None \<Rightarrow> True | Some q \<Rightarrow> up_url q = None \<or> up_url q = Some [])"
    | (yes) q' u where "params = Some q'" "up_url q' = Some u" "u \<noteq> []"
    using has_url_cases[of params] by blast
  then show ?thesis
  proof cases
    case no
    then show ?thesis
      using assms by (simp add: uploadFile_resume_no_url stage_upd stage_changeStatus)
  next
    case yes
    then show ?thesis
      using assms by (cases "q = r") (simp_all add: uploadFile_resume_url)
  qed
qed

lemma awaiting_step:
  assumes "r < length (objs s)" "pipeline (objs s ! r) = AwaitMedia k u" "\<not> is_load r ev"
  shows "r < length (objs (step p e ev s)) \<and> pipeline (objs (step p e ev s) ! r) = AwaitMedia k u"
proof (cases ev)
  case (HandleFile f now)
  have "length (objs s) \<le> length (objs (handleFile p e f now s))"
    by (cases "retains p e s (HandleFile f now)")
      (simp_all add: handleFile_rejects handleFile_retains_fields)
  then show ?thesis using assms HandleFile by (simp add: handleFile_old)
next
  case (MediaLoaded q m)
  then show ?thesis using assms by (simp add: other_generatePreview_resume)
next
  case (PreviewAwaited q)
  then show ?thesis
    using assms by (cases "q = r") (simp_all add: awaiting_no_resume other_handleFile_resume)
next
  case (TriggerUpload q)
  then show ?thesis
    using assms by (cases "q = r") (simp_all add: awaiting_no_resume other_triggerUpload)
next
  case (ParamsResolved n)
  have "\<And>t. r < length (objs t) \<Longrightarrow> r < length (objs (t\<lparr>uploads := take n (uploads t) @ drop (Suc n) (uploads t)\<rparr>))"
    by simp
  then show ?thesis
    using assms ParamsResolved by (simp add: stage_uploadFile_resume)
qed (use assms in \<open>simp_all add: stage_on_progress stage_on_readystatechange
      stage_handleRestart\<close>)

lemma awaiting_run:
  assumes "r < length (objs s)" "pipeline (objs s ! r) = AwaitMedia k u"
    "list_all (\<lambda>ev. \<not> is_load r ev) evs"
  shows "r < length (objs (run p e evs s)) \<and> pipeline (objs (run p e evs s) ! r) = AwaitMedia k u"
  using assms
proof (induction evs arbitrary: s)
  case Nil
  then show ?case by simp
next
  case (Cons ev evs)
  then show ?case using awaiting_step[of r s k u ev p e] by simp
qed

text \<open>
  Claim C4. The claim: the extraction always completes, also when decoding fails.
  \<open>generatePreview\<close> awaits a promise that only \<open>onload\<close> resolves. For \<open>a.png\<close>, after
  \<open>onerror\<close> the record has the status \<open>preparing\<close>, and whatever events follow, short
  of \<open>onload\<close>, \<open>generatePreview\<close> still awaits the callback: \<open>handleFile\<close> never reaches
  its closure.
\<close>

theorem C4_decode_failure_never_resumes:
  "get ''status'' (objs (run props_plain env0 [HandleFile a_png ''t0'', MediaError 0] init) ! 0)
     = Str ''preparing''
   \<and> (list_all (\<lambda>ev. \<not> is_load 0 ev) evs \<longrightarrow>
        pipeline (objs (run props_plain env0 (HandleFile a_png ''t0'' # MediaError 0 # evs) init) ! 0)
          = AwaitMedia Image 0)"
proof -
  have a: "0 < length (objs (run props_plain env0 [HandleFile a_png ''t0'', MediaError 0] init))"
    "pipeline (objs (run props_plain env0 [HandleFile a_png ''t0'', MediaError 0] init) ! 0)
       = AwaitMedia Image 0"
    "get ''status'' (objs (run props_plain env0 [HandleFile a_png ''t0'', MediaError 0] init) ! 0)
       = Str ''preparing''"
    by (simp_all add: fixtures ops)
  have r: "run props_plain env0 (HandleFile a_png ''t0'' # MediaError 0 # evs) init
      = run props_plain env0 evs (run props_plain env0 [HandleFile a_png ''t0'', MediaError 0] init)"
    by simp
  show ?thesis
    unfolding r using awaiting_run[OF a(1,2), of evs props_plain env0] a(3) by blast
qed

theorem C4_witness:
  "list_all (\<lambda>ev. \<not> is_load 0 ev)
     [PreviewAwaited 0, TriggerUpload 0, HandleFile b_txt ''t1'', PreviewAwaited 1, Cancel 0]
   \<and> pipeline (objs (run props_plain env0
        [HandleFile a_png ''t0'', MediaError 0, PreviewAwaited 0, TriggerUpload 0,
         HandleFile b_txt ''t1'', PreviewAwaited 1, Cancel 0] init) ! 0) = AwaitMedia Image 0
   \<and> get ''status'' (objs (run props_plain env0
        [HandleFile a_png ''t0'', MediaError 0, PreviewAwaited 0, TriggerUpload 0,
         HandleFile b_txt ''t1'', PreviewAwaited 1, Cancel 0] init) ! 0) = Str ''preparing''
   \<and> get ''status'' (objs (run props_plain env0
        [HandleFile a_png ''t0'', MediaError 0, PreviewAwaited 0, TriggerUpload 0,
         HandleFile b_txt ''t1'', PreviewAwaited 1, Cancel 0] init) ! 1) = Str ''done''"
proof -
  have a: "list_all (\<lambda>ev. \<not> is_load 0 ev)
     [PreviewAwaited 0, TriggerUpload 0, HandleFile b_txt ''t1'', PreviewAwaited 1, Cancel 0]"
    by simp
  have b: "get ''status'' (objs (run props_plain env0
        [HandleFile a_png ''t0'', MediaError 0, PreviewAwaited 0, TriggerUpload 0,
         HandleFile b_txt ''t1'', PreviewAwaited 1, Cancel 0] init) ! 0) = Str ''preparing''"
    "get ''status'' (objs (run props_plain env0
        [HandleFile a_png ''t0'', MediaError 0, PreviewAwaited 0, TriggerUpload 0,
         HandleFile b_txt ''t1'', PreviewAwaited 1, Cancel 0] init) ! 1) = Str ''done''"
    by (simp_all add: fixtures ops)
  have c: "pipeline (objs (run props_plain env0
        [HandleFile a_png ''t0'', MediaError 0, PreviewAwaited 0, TriggerUpload 0,
         HandleFile b_txt ''t1'', PreviewAwaited 1, Cancel 0] init) ! 0) = AwaitMedia Image 0"
    using C4_decode_failure_never_resumes[of
        "[PreviewAwaited 0, TriggerUpload 0, HandleFile b_txt ''t1'', PreviewAwaited 1, Cancel 0]"] a
    by blast
  show ?thesis using a b c by blast
qed

end
